theory Spec2Isabelle
  imports Main "HOL-Library.AList"
begin

section \<open>The CI check-run popover (app/src/ui/check-runs/ci-check-run-popover.tsx)\<close>

text \<open>
  A shallow embedding of the class \<open>CICheckRunPopover\<close>. The component is a React class
  with four state fields, one private field (\<open>statusSubscription\<close>) and a handful of
  methods. Everything the methods do to the outside world goes through the injected
  dispatcher; the embedding records those calls, in order, in a log.

  Conventions of the embedding:
  \<^item> JavaScript \<open>null\<close> is \<open>None\<close>;
  \<^item> the numbers that occur (pull-request numbers, counts, check-suite ids) are
    naturals, and a template literal renders them in decimal;
  \<^item> \<open>this.setState(partial)\<close> merges the given fields into the state of a mounted
    component at once; React drops a \<open>setState\<close> that is issued before the component
    is mounted, which here is the one \<open>onStatus\<close> issues when the constructor hands
    it a null or empty status;
  \<^item> an \<open>await\<close> suspends the running \<open>onStatus\<close> invocation; the invocation is kept
    in a table of suspended invocations until the awaited promise settles.
\<close>

subsection \<open>Strings\<close>

text \<open>Decimal rendering of a number inside a template literal.\<close>

definition digit_char :: "nat \<Rightarrow> char" where
  "digit_char d = ''0123456789'' ! (d mod 10)"

function show_nat :: "nat \<Rightarrow> string" where
  "show_nat n = (if n < 10 then [digit_char n] else show_nat (n div 10) @ [digit_char (n mod 10)])"
  by pat_completeness auto
termination
  by (relation "measure (\<lambda>n. n)") auto

declare show_nat.simps [simp del]

text \<open>
  \<open>String.prototype.toLocaleLowerCase\<close>, on the ASCII letters (the adjectives are
  English words).
\<close>

definition lower_char :: "char \<Rightarrow> char" where
  "lower_char c =
     (case map_of (zip ''ABCDEFGHIJKLMNOPQRSTUVWXYZ'' ''abcdefghijklmnopqrstuvwxyz'') c of
        None \<Rightarrow> c
      | Some l \<Rightarrow> l)"

definition toLocaleLowerCase :: "string \<Rightarrow> string" where
  "toLocaleLowerCase s = map lower_char s"

text \<open>\<open>Array.prototype.join\<close> on an array of strings.\<close>

fun join :: "string \<Rightarrow> string list \<Rightarrow> string" where
  "join sep [] = []"
| "join sep [x] = x"
| "join sep (x # y # ys) = x @ sep @ join sep (y # ys)"

text \<open>
  A nullable string inside a template literal: \<open>null\<close> is rendered as the four
  letters \<open>null\<close>.
\<close>

definition template_of_nullable :: "string option \<Rightarrow> string" where
  "template_of_nullable v = (case v of None \<Rightarrow> ''null'' | Some s \<Rightarrow> s)"

subsection \<open>Data\<close>

text \<open>
  \<open>IRefCheck\<close> and \<open>ICombinedRefCheck\<close> are declared in the commit status store; the
  popover reads three fields of a check and the \<open>checks\<close> of a combined status. The
  conclusion enumeration is left as a type parameter. A check's \<open>htmlUrl\<close> and
  \<open>checkSuiteId\<close> may be null (the source applies \<open>??\<close> to the one and collects the
  other in a \<open>Set<number | null>\<close>), and so may a repository's \<open>htmlURL\<close> (the source
  tests for it). Of \<open>GitHubRepository\<close> and of the props only the fields the methods
  below read are kept.
\<close>

record 'c IRefCheck =
  conclusion :: 'c
  htmlUrl :: "string option"
  checkSuiteId :: "nat option"

record 'c ICombinedRefCheck =
  checks :: "'c IRefCheck list"

record GitHubRepository =
  hash :: string
  htmlURL :: "string option"

record ICICheckRunPopoverProps =
  repository :: GitHubRepository
  branchName :: string
  prNumber :: nat

record 'c ICICheckRunPopoverState =
  checkRuns :: "'c IRefCheck list"
  checkRunSummary :: string
  loadingActionLogs :: bool
  loadingActionWorkflows :: bool

datatype js_error = TypeError

subsection \<open>getCommitRef and getCombinedCheckSummary\<close>

definition getCommitRef :: "nat \<Rightarrow> string" where
  "getCommitRef n = ''refs/pull/'' @ show_nat n @ ''/head''"

text \<open>
  The \<open>Map<string, number>\<close> of the summary is an association list in insertion order:
  \<open>Map.prototype.set\<close> on a key that is present keeps the key's position.
\<close>

definition count_conclusion :: "string \<Rightarrow> (string \<times> nat) list \<Rightarrow> (string \<times> nat) list" where
  "count_conclusion adj conclusionMap =
     AList.update adj ((case map_of conclusionMap adj of None \<Rightarrow> 0 | Some n \<Rightarrow> n) + 1) conclusionMap"

definition conclusion_counts ::
  "('c \<Rightarrow> string) \<Rightarrow> 'c IRefCheck list \<Rightarrow> (string \<times> nat) list" where
  "conclusion_counts getCheckRunConclusionAdjective cs =
     foldl (\<lambda>conclusionMap check.
              count_conclusion (toLocaleLowerCase (getCheckRunConclusionAdjective (conclusion check)))
                conclusionMap)
       [] cs"

definition count_and_conclusion :: "string \<times> nat \<Rightarrow> string" where
  "count_and_conclusion e = show_nat (snd e) @ '' '' @ fst e"

text \<open>
  \<open>getCheckRunConclusionAdjective\<close> is imported from the commit status store and is a
  parameter here. \<open>summaryArray[0]\<close> of an empty array is \<open>undefined\<close>, and reading its
  \<open>count\<close> throws a TypeError.
\<close>

definition getCombinedCheckSummary ::
  "('c \<Rightarrow> string) \<Rightarrow> 'c ICombinedRefCheck option \<Rightarrow> js_error + string" where
  "getCombinedCheckSummary getCheckRunConclusionAdjective combinedCheck =
     (case combinedCheck of
        None \<Rightarrow> Inr ''''
      | Some cc \<Rightarrow>
          if length (checks cc) = 0 then Inr ''''
          else
            let summaryArray = conclusion_counts getCheckRunConclusionAdjective (checks cc) in
            if length summaryArray > 1 then
              let output = map count_and_conclusion summaryArray in
              Inr (join '', '' (butlast output) @ '', and '' @
                   join '','' (drop (length output - 1) output) @ '' checks'')
            else
              (case summaryArray of
                 [] \<Rightarrow> Inl TypeError
               | e # _ \<Rightarrow>
                   Inr (show_nat (snd e) @ '' '' @ fst e @ '' '' @
                        (if snd e > 1 then ''checks'' else ''check''))))"

subsection \<open>The component\<close>

text \<open>
  The calls the component makes on the dispatcher and on the disposable it holds, in
  the order of the source. The dispatcher itself is not part of this file; the log
  records which disposable a subscription returned and which one is disposed of.
  What the two enrichment requests resolve to, and when, is up to the dispatcher: it
  is the argument of the event \<open>Settle\<close> below.
\<close>

datatype 'c dispatcher_call =
    SubscribeToCommitStatus GitHubRepository string nat
  | Dispose nat
  | GetCheckRunActionsJobsAndLogURLS GitHubRepository string string "'c IRefCheck list"
  | GetActionsWorkflowRunLogs GitHubRepository string "'c IRefCheck list"
  | RerequestCheckSuite GitHubRepository nat
  | OpenInBrowser string

text \<open>What a suspended \<open>onStatus\<close> invocation is waiting for.\<close>

datatype awaited = JobsAndLogURLs | WorkflowRunLogs

text \<open>How an awaited promise settles.\<close>

datatype 'c settlement = Fulfilled "'c IRefCheck list" | Rejected

text \<open>
  The instance: \<open>props\<close>, \<open>state\<close> and \<open>statusSubscription\<close> are the fields of the
  source. \<open>calls\<close> is the log of dispatcher calls, \<open>disposables\<close> the number of
  disposables handed out so far, \<open>suspended\<close> the \<open>onStatus\<close> invocations that wait at
  an \<open>await\<close> (by invocation number), and \<open>invocations\<close> the number of \<open>onStatus\<close>
  invocations so far.
\<close>

record 'c CICheckRunPopover =
  props :: ICICheckRunPopoverProps
  state :: "'c ICICheckRunPopoverState"
  statusSubscription :: "nat option"
  calls :: "'c dispatcher_call list"
  disposables :: nat
  suspended :: "(nat \<times> awaited) list"
  invocations :: nat

definition unsubscribe :: "'c CICheckRunPopover \<Rightarrow> 'c CICheckRunPopover" where
  "unsubscribe c =
     (case statusSubscription c of
        None \<Rightarrow> c
      | Some d \<Rightarrow> c\<lparr>statusSubscription := None, calls := calls c @ [Dispose d]\<rparr>)"

text \<open>
  Modelled from the spec: the dispatcher's \<open>subscribeToCommitStatus\<close> is not in this
  file; by section 6 of the specification,
  \<open>subscribe(repository, ref, callback) -> Subscription\<close>, each call returns a
  subscription of its own: here the next unused number. Everything else in
  \<open>subscribe\<close> is the source's.
\<close>

definition subscribe :: "'c CICheckRunPopover \<Rightarrow> 'c CICheckRunPopover" where
  "subscribe c =
     (let c1 = unsubscribe c in
      c1\<lparr>statusSubscription := Some (disposables c1),
         calls := calls c1 @
           [SubscribeToCommitStatus (repository (props c1)) (getCommitRef (prNumber (props c1)))
              (disposables c1)],
         disposables := Suc (disposables c1)\<rparr>)"

text \<open>\<open>onStatus\<close> up to its first \<open>await\<close> (or to its early return).\<close>

definition onStatus ::
  "'c ICombinedRefCheck option \<Rightarrow> 'c CICheckRunPopover \<Rightarrow> 'c CICheckRunPopover" where
  "onStatus check c =
     (let statusChecks = (case check of None \<Rightarrow> [] | Some cc \<Rightarrow> checks cc);
          c1 = c\<lparr>invocations := Suc (invocations c)\<rparr>
      in
      if length statusChecks = 0 then
        c1\<lparr>state := (state c1)\<lparr>checkRuns := statusChecks,
                                 loadingActionLogs := False,
                                 loadingActionWorkflows := False\<rparr>\<rparr>
      else
        c1\<lparr>calls := calls c1 @
              [GetCheckRunActionsJobsAndLogURLS (repository (props c1))
                 (getCommitRef (prNumber (props c1))) (branchName (props c1)) statusChecks],
           suspended := AList.update (invocations c) JobsAndLogURLs (suspended c1)\<rparr>)"

text \<open>\<open>onStatus\<close> from the first \<open>await\<close> to the second.\<close>

definition onStatus_after_jobs ::
  "nat \<Rightarrow> 'c IRefCheck list \<Rightarrow> 'c CICheckRunPopover \<Rightarrow> 'c CICheckRunPopover" where
  "onStatus_after_jobs i checkRunsWithActionsUrls c =
     (if statusSubscription c = None then c
      else
        c\<lparr>state := (state c)\<lparr>checkRuns := checkRunsWithActionsUrls,
                               loadingActionWorkflows := False\<rparr>,
          calls := calls c @
            [GetActionsWorkflowRunLogs (repository (props c)) (getCommitRef (prNumber (props c)))
               checkRunsWithActionsUrls],
          suspended := AList.update i WorkflowRunLogs (suspended c)\<rparr>)"

text \<open>\<open>onStatus\<close> after the second \<open>await\<close>.\<close>

definition onStatus_after_logs ::
  "'c IRefCheck list \<Rightarrow> 'c CICheckRunPopover \<Rightarrow> 'c CICheckRunPopover" where
  "onStatus_after_logs checkRuns' c =
     (if statusSubscription c = None then c
      else c\<lparr>state := (state c)\<lparr>checkRuns := checkRuns', loadingActionLogs := False\<rparr>\<rparr>)"

text \<open>
  The promise that invocation \<open>i\<close> awaits settles. A rejection ends the invocation
  (the \<open>async\<close> function rejects in turn; nothing catches it and no state is set).
\<close>

definition settle ::
  "nat \<Rightarrow> 'c settlement \<Rightarrow> 'c CICheckRunPopover \<Rightarrow> 'c CICheckRunPopover" where
  "settle i outcome c =
     (case map_of (suspended c) i of
        None \<Rightarrow> c
      | Some w \<Rightarrow>
          (let c1 = c\<lparr>suspended := AList.delete i (suspended c)\<rparr> in
           case outcome of
             Rejected \<Rightarrow> c1
           | Fulfilled r \<Rightarrow>
               (case w of
                  JobsAndLogURLs \<Rightarrow> onStatus_after_jobs i r c1
                | WorkflowRunLogs \<Rightarrow> onStatus_after_logs r c1)))"

text \<open>
  The constructor assigns \<open>this.state\<close> and then calls \<open>onStatus\<close>. The component is
  not mounted yet, so the \<open>setState\<close> that \<open>onStatus\<close> issues for a null or empty
  status is dropped and the state stays as assigned; for a non-empty status
  \<open>onStatus\<close> issues no \<open>setState\<close> before its first \<open>await\<close>, and its request and its
  suspension stand.
\<close>

definition constructor ::
  "('c \<Rightarrow> string) \<Rightarrow> (GitHubRepository \<Rightarrow> string \<Rightarrow> 'c ICombinedRefCheck option) \<Rightarrow>
     ICICheckRunPopoverProps \<Rightarrow> js_error + 'c CICheckRunPopover" where
  "constructor getCheckRunConclusionAdjective tryGetCommitStatus p =
     (let combinedCheck = tryGetCommitStatus (repository p) (getCommitRef (prNumber p)) in
      case getCombinedCheckSummary getCheckRunConclusionAdjective combinedCheck of
        Inl e \<Rightarrow> Inl e
      | Inr summary \<Rightarrow>
          (let self = \<lparr>props = p,
                       state = \<lparr>checkRuns = (case combinedCheck of
                                               None \<Rightarrow> [] | Some cc \<Rightarrow> checks cc),
                                checkRunSummary = summary,
                                loadingActionLogs = True,
                                loadingActionWorkflows = True\<rparr>,
                       statusSubscription = None,
                       calls = [],
                       disposables = 0,
                       suspended = [],
                       invocations = 0\<rparr>
           in Inr ((onStatus combinedCheck self)\<lparr>state := state self\<rparr>)))"

text \<open>\<open>componentDidUpdate\<close>: \<open>props c\<close> are the current props, \<open>prevProps\<close> the former.\<close>

definition componentDidUpdate ::
  "(GitHubRepository \<Rightarrow> string \<Rightarrow> 'c ICombinedRefCheck option) \<Rightarrow> ICICheckRunPopoverProps \<Rightarrow>
     'c CICheckRunPopover \<Rightarrow> 'c CICheckRunPopover" where
  "componentDidUpdate tryGetCommitStatus prevProps c =
     (if hash (repository (props c)) \<noteq> hash (repository prevProps) \<or>
         getCommitRef (prNumber (props c)) \<noteq> getCommitRef (prNumber prevProps)
      then
        let combinedCheck =
              tryGetCommitStatus (repository (props c)) (getCommitRef (prNumber (props c)))
        in subscribe
             (c\<lparr>state := (state c)\<lparr>checkRuns :=
                   (case combinedCheck of None \<Rightarrow> [] | Some cc \<Rightarrow> checks cc)\<rparr>\<rparr>)
      else c)"

definition componentDidMount :: "'c CICheckRunPopover \<Rightarrow> 'c CICheckRunPopover" where
  "componentDidMount c = subscribe c"

definition componentWillUnmount :: "'c CICheckRunPopover \<Rightarrow> 'c CICheckRunPopover" where
  "componentWillUnmount c = unsubscribe c"

definition viewCheckRunsOnGitHub ::
  "'c IRefCheck \<Rightarrow> 'c CICheckRunPopover \<Rightarrow> 'c CICheckRunPopover" where
  "viewCheckRunsOnGitHub checkRun c =
     (let url =
            (case htmlUrl checkRun of
               Some u \<Rightarrow> Some u
             | None \<Rightarrow>
                 Some (template_of_nullable (htmlURL (repository (props c))) @ ''/pull/'' @
                       show_nat (prNumber (props c))))
      in
      case url of
        None \<Rightarrow> c
      | Some u \<Rightarrow> c\<lparr>calls := calls c @ [OpenInBrowser u]\<rparr>)"

text \<open>
  \<open>new Set([...])\<close>: the distinct elements in the order of their first occurrence,
  which is the order a \<open>for ... of\<close> loop visits them in.
\<close>

definition set_of_array :: "'a list \<Rightarrow> 'a list" where
  "set_of_array xs = foldl (\<lambda>s x. if x \<in> set s then s else s @ [x]) [] xs"

definition rerunJobs :: "'c CICheckRunPopover \<Rightarrow> 'c CICheckRunPopover" where
  "rerunJobs c =
     (let checkSuiteIds = set_of_array (map checkSuiteId (checkRuns (state c))) in
      foldl (\<lambda>c' id'.
               case id' of
                 None \<Rightarrow> c'
               | Some i \<Rightarrow> c'\<lparr>calls := calls c' @ [RerequestCheckSuite (repository (props c')) i]\<rparr>)
        c checkSuiteIds)"

subsection \<open>The component's life as a sequence of events\<close>

text \<open>
  What can happen to an instance once it is constructed: React mounts it, re-renders
  it with new props, unmounts it; the store delivers a status through the live
  subscription (it calls the registered \<open>onStatus\<close>; without a live subscription
  there is nothing to call); an awaited promise settles; the user presses the re-run
  button or opens a check on GitHub.
\<close>

datatype 'c event =
    Mount
  | NewProps ICICheckRunPopoverProps "GitHubRepository \<Rightarrow> string \<Rightarrow> 'c ICombinedRefCheck option"
  | Unmount
  | Status "'c ICombinedRefCheck option"
  | Settle nat "'c settlement"
  | Rerun
  | ViewOnGitHub "'c IRefCheck"

fun step :: "'c CICheckRunPopover \<Rightarrow> 'c event \<Rightarrow> 'c CICheckRunPopover" where
  "step c Mount = componentDidMount c"
| "step c (NewProps p tryGetCommitStatus) =
     componentDidUpdate tryGetCommitStatus (props c) (c\<lparr>props := p\<rparr>)"
| "step c Unmount = componentWillUnmount c"
| "step c (Status check) = (if statusSubscription c = None then c else onStatus check c)"
| "step c (Settle i outcome) = settle i outcome c"
| "step c Rerun = rerunJobs c"
| "step c (ViewOnGitHub checkRun) = viewCheckRunsOnGitHub checkRun c"

definition run :: "'c CICheckRunPopover \<Rightarrow> 'c event list \<Rightarrow> 'c CICheckRunPopover" where
  "run c es = foldl step c es"

text \<open>
  A component from its construction on: the constructor runs, then the events happen
  in order.
\<close>

definition life ::
  "('c \<Rightarrow> string) \<Rightarrow> (GitHubRepository \<Rightarrow> string \<Rightarrow> 'c ICombinedRefCheck option) \<Rightarrow>
     ICICheckRunPopoverProps \<Rightarrow> 'c event list \<Rightarrow> js_error + 'c CICheckRunPopover" where
  "life getCheckRunConclusionAdjective tryGetCommitStatus p es =
     (case constructor getCheckRunConclusionAdjective tryGetCommitStatus p of
        Inl e \<Rightarrow> Inl e
      | Inr c \<Rightarrow> Inr (run c es))"

text \<open>Promises settling one after the other, and nothing else happening.\<close>

definition settlements :: "(nat \<times> 'c settlement) list \<Rightarrow> 'c event list" where
  "settlements rs = map (\<lambda>r. Settle (fst r) (snd r)) rs"

section \<open>What the specification says, as definitions\<close>

subsection \<open>The summary\<close>

text \<open>The distinct elements of a list, in the order in which they are first seen.\<close>

definition first_seen :: "'a list \<Rightarrow> 'a list" where
  "first_seen xs = rev (remdups (rev xs))"

text \<open>
  The groups of the summary: one per distinct lower-cased adjective, in first-seen
  order, with the number of checks that have it.
\<close>

definition adjective_groups :: "('c \<Rightarrow> string) \<Rightarrow> 'c IRefCheck list \<Rightarrow> (string \<times> nat) list" where
  "adjective_groups adjective cs =
     (let adjs = map (\<lambda>c. toLocaleLowerCase (adjective (conclusion c))) cs
      in map (\<lambda>a. (a, count_list adjs a)) (first_seen adjs))"

definition group_text :: "string \<times> nat \<Rightarrow> string" where
  "group_text g = (case g of (a, n) \<Rightarrow> show_nat n @ '' '' @ a)"

text \<open>
  Two or more segments as a list with an Oxford comma: a comma and a space after
  every segment but the last two, and a comma, a space, \<open>and\<close> and a space between the
  last two.
\<close>

fun oxford_list :: "string list \<Rightarrow> string" where
  "oxford_list [] = ''''"
| "oxford_list [s] = s"
| "oxford_list [s, t] = s @ '', and '' @ t"
| "oxford_list (s # t # u # us) = s @ '', '' @ oxford_list (t # u # us)"

text \<open>
  No group: the empty string. One group: count, adjective, and \<open>check\<close> or \<open>checks\<close>.
  Several groups: the Oxford-comma list of the groups, each as count and adjective,
  followed by \<open>checks\<close>.
\<close>

definition summarize :: "('c \<Rightarrow> string) \<Rightarrow> 'c IRefCheck list \<Rightarrow> string" where
  "summarize adjective cs =
     (case adjective_groups adjective cs of
        [] \<Rightarrow> ''''
      | [(a, n)] \<Rightarrow> show_nat n @ '' '' @ a @ (if n > 1 then '' checks'' else '' check'')
      | g # g' # gs \<Rightarrow> oxford_list (map group_text (g # g' # gs)) @ '' checks'')"

subsection \<open>The check suites to re-request\<close>

definition somes :: "'a option list \<Rightarrow> 'a list" where
  "somes xs = concat (map (\<lambda>x. case x of None \<Rightarrow> [] | Some i \<Rightarrow> [i]) xs)"

text \<open>The distinct check-suite identifiers of a list of checks that are not null.\<close>

definition suite_ids :: "'c IRefCheck list \<Rightarrow> nat list" where
  "suite_ids cs = somes (first_seen (map checkSuiteId cs))"

subsection \<open>Subscriptions, read off the log of calls\<close>

text \<open>
  The disposables that are live after a sequence of calls: those a
  \<open>subscribeToCommitStatus\<close> returned and no \<open>dispose\<close> has disposed of since.
\<close>

fun live_after :: "nat list \<Rightarrow> 'c dispatcher_call \<Rightarrow> nat list" where
  "live_after l (SubscribeToCommitStatus r ref d) = l @ [d]"
| "live_after l (Dispose d) = removeAll d l"
| "live_after l (GetCheckRunActionsJobsAndLogURLS r ref b cs) = l"
| "live_after l (GetActionsWorkflowRunLogs r ref cs) = l"
| "live_after l (RerequestCheckSuite r i) = l"
| "live_after l (OpenInBrowser u) = l"

definition live_subscriptions :: "'c dispatcher_call list \<Rightarrow> nat list" where
  "live_subscriptions cs = foldl live_after [] cs"

text \<open>Every \<open>dispose\<close> of the log, and every subscription of the log.\<close>

definition disposals :: "'c dispatcher_call list \<Rightarrow> nat list" where
  "disposals cs = concat (map (\<lambda>c. case c of Dispose d \<Rightarrow> [d] | _ \<Rightarrow> []) cs)"

definition subscriptions :: "'c dispatcher_call list \<Rightarrow> nat list" where
  "subscriptions cs =
     concat (map (\<lambda>c. case c of SubscribeToCommitStatus r ref d \<Rightarrow> [d] | _ \<Rightarrow> []) cs)"

text \<open>The disposable the instance holds in \<open>statusSubscription\<close>, if any.\<close>

definition held :: "'c CICheckRunPopover \<Rightarrow> nat list" where
  "held c = (case statusSubscription c of None \<Rightarrow> [] | Some d \<Rightarrow> [d])"

text \<open>
  The invariant of the subscription: what is live is what the instance holds; nothing
  is disposed of twice; every subscription made is the one held or has been disposed
  of; the one held has not been disposed of.
\<close>

definition subscription_inv :: "'c CICheckRunPopover \<Rightarrow> bool" where
  "subscription_inv c \<longleftrightarrow>
     live_subscriptions (calls c) = held c \<and>
     distinct (disposals (calls c)) \<and>
     distinct (subscriptions (calls c)) \<and>
     set (subscriptions (calls c)) = set (disposals (calls c)) \<union> set (held c) \<and>
     set (disposals (calls c)) \<inter> set (held c) = {} \<and>
     (\<forall>d \<in> set (subscriptions (calls c)). d < disposables c)"

text \<open>The requests for workflow run logs (the second enrichment request) of a log.\<close>

fun is_log_request :: "'c dispatcher_call \<Rightarrow> bool" where
  "is_log_request (GetActionsWorkflowRunLogs r ref cs) = True"
| "is_log_request (SubscribeToCommitStatus r ref d) = False"
| "is_log_request (Dispose d) = False"
| "is_log_request (GetCheckRunActionsJobsAndLogURLS r ref b cs) = False"
| "is_log_request (RerequestCheckSuite r i) = False"
| "is_log_request (OpenInBrowser u) = False"

definition log_requests :: "'c dispatcher_call list \<Rightarrow> 'c dispatcher_call list" where
  "log_requests cs = filter is_log_request cs"

section \<open>Concrete data for the instances below\<close>

text \<open>
  Four conclusions of the specification's enumeration. The adjectives of success and
  failure are the ones the specification quotes (\<open>successful\<close>, \<open>failed\<close>), before
  lower-casing; the other two stand for any further adjective.
\<close>

datatype example_conclusion = Success | Failure | Neutral | Skipped

fun example_adjective :: "example_conclusion \<Rightarrow> string" where
  "example_adjective Success = ''Successful''"
| "example_adjective Failure = ''Failed''"
| "example_adjective Neutral = ''Neutral''"
| "example_adjective Skipped = ''Skipped''"

definition success_check :: "example_conclusion IRefCheck" where
  "success_check =
     \<lparr>conclusion = Success, htmlUrl = Some ''https://ci.example/1'', checkSuiteId = Some 11\<rparr>"

definition failure_check :: "example_conclusion IRefCheck" where
  "failure_check = \<lparr>conclusion = Failure, htmlUrl = None, checkSuiteId = Some 11\<rparr>"

definition neutral_check :: "example_conclusion IRefCheck" where
  "neutral_check = \<lparr>conclusion = Neutral, htmlUrl = None, checkSuiteId = None\<rparr>"

definition skipped_check :: "example_conclusion IRefCheck" where
  "skipped_check = \<lparr>conclusion = Skipped, htmlUrl = None, checkSuiteId = None\<rparr>"

text \<open>A repository without an \<open>htmlURL\<close>, and pull requests 7 and 8 of it.\<close>

definition example_props :: ICICheckRunPopoverProps where
  "example_props =
     \<lparr>repository = \<lparr>hash = ''desktop/desktop'', htmlURL = None\<rparr>, branchName = ''main'',
      prNumber = 7\<rparr>"

definition example_props' :: ICICheckRunPopoverProps where
  "example_props' = example_props\<lparr>prNumber := 8\<rparr>"

text \<open>Two states of the status cache: nothing cached, and one successful check cached.\<close>

definition nothing_cached ::
  "GitHubRepository \<Rightarrow> string \<Rightarrow> example_conclusion ICombinedRefCheck option" where
  "nothing_cached r ref = None"

definition one_cached ::
  "GitHubRepository \<Rightarrow> string \<Rightarrow> example_conclusion ICombinedRefCheck option" where
  "one_cached r ref = Some \<lparr>checks = [success_check]\<rparr>"

definition example_life :: "example_conclusion event list" where
  "example_life =
     [Mount, Status (Some \<lparr>checks = [success_check]\<rparr>), NewProps example_props' one_cached,
      Settle 1 (Fulfilled [failure_check]), Rerun, NewProps example_props nothing_cached]"

text \<open>
  The component after construction and the given events (the constructor does not
  throw, see \<open>life_total\<close> below).
\<close>

definition after_events ::
  "(GitHubRepository \<Rightarrow> string \<Rightarrow> example_conclusion ICombinedRefCheck option) \<Rightarrow>
     ICICheckRunPopoverProps \<Rightarrow> example_conclusion event list \<Rightarrow>
     example_conclusion CICheckRunPopover" where
  "after_events tryGetCommitStatus p es = projr (life example_adjective tryGetCommitStatus p es)"

text \<open>
  A mounted component whose first \<open>onStatus\<close> invocation (the constructor's, for the
  one cached check) waits for the jobs and log URLs.
\<close>

definition in_flight :: "example_conclusion CICheckRunPopover" where
  "in_flight = after_events one_cached example_props [Mount]"

section \<open>Properties\<close>

subsection \<open>The summary string\<close>

lemma first_seen_snoc:
  "first_seen (xs @ [x]) = (if x \<in> set xs then first_seen xs else first_seen xs @ [x])"
  by (simp add: first_seen_def)

lemma set_first_seen: "set (first_seen xs) = set xs"
  by (simp add: first_seen_def)

lemma distinct_first_seen: "distinct (first_seen xs)"
  by (simp add: first_seen_def)

lemma map_of_graph: "map_of (map (\<lambda>a. (a, f a)) ks) x = (if x \<in> set ks then Some (f x) else None)"
  by (induction ks) auto

lemma update_graph:
  "distinct ks \<Longrightarrow>
   AList.update x v (map (\<lambda>a. (a, f a)) ks) =
     (if x \<in> set ks then map (\<lambda>a. (a, if a = x then v else f a)) ks
      else map (\<lambda>a. (a, f a)) ks @ [(x, v)])"
  by (induction ks) auto

text \<open>The loop over the checks builds the groups: induction from the right end.\<close>

lemma counting_groups:
  "foldl (\<lambda>m a. count_conclusion a m) [] xs = map (\<lambda>a. (a, count_list xs a)) (first_seen xs)"
proof (induction xs rule: rev_induct)
  case Nil
  show ?case by (simp add: first_seen_def)
next
  case (snoc x xs)
  have unfold: "foldl (\<lambda>m a. count_conclusion a m) [] (xs @ [x]) =
      count_conclusion x (map (\<lambda>a. (a, count_list xs a)) (first_seen xs))"
    by (simp add: snoc.IH)
  show ?case
  proof (cases "x \<in> set xs")
    case True
    then show ?thesis unfolding unfold
      by (simp add: count_conclusion_def map_of_graph update_graph
          first_seen_snoc set_first_seen distinct_first_seen)
  next
    case False
    then show ?thesis unfolding unfold
      by (auto simp add: count_conclusion_def map_of_graph update_graph
          first_seen_snoc set_first_seen distinct_first_seen)
  qed
qed

lemma conclusion_counts_groups: "conclusion_counts adjective cs = adjective_groups adjective cs"
  by (simp add: conclusion_counts_def adjective_groups_def Let_def foldl_map
      counting_groups [symmetric])

lemma adjective_groups_Nil_iff: "adjective_groups adjective cs = [] \<longleftrightarrow> cs = []"
  by (simp add: adjective_groups_def Let_def first_seen_def)

lemma join_single_last: "xs \<noteq> [] \<Longrightarrow> join sep (drop (length xs - 1) xs) = last xs"
  by (induction xs rule: rev_induct) auto

text \<open>\<open>summaryArray[0]\<close> is never read of an empty array: the function returns.\<close>

lemma getCombinedCheckSummary_returns:
  "\<exists>summary. getCombinedCheckSummary adjective combinedCheck = Inr summary"
proof (cases combinedCheck)
  case None
  then show ?thesis by (simp add: getCombinedCheckSummary_def)
next
  case (Some cc)
  show ?thesis
  proof (cases "checks cc = []")
    case True
    with Some show ?thesis by (simp add: getCombinedCheckSummary_def)
  next
    case False
    then have "conclusion_counts adjective (checks cc) \<noteq> []"
      by (simp add: conclusion_counts_groups adjective_groups_Nil_iff)
    with Some False show ?thesis
      by (auto simp: getCombinedCheckSummary_def Let_def split: list.splits)
  qed
qed

text \<open>
  The code's way to the list (join all but the last with a comma and a space, then
  \<open>, and\<close> and the last) gives the Oxford-comma list.
\<close>

lemma join_butlast_oxford:
  "join '', '' (butlast (x # y # zs)) @ '', and '' @ last (x # y # zs) = oxford_list (x # y # zs)"
proof (induction zs arbitrary: x y)
  case Nil
  show ?case by simp
next
  case (Cons z zs)
  have "join '', '' (butlast (x # y # z # zs)) = x @ '', '' @ join '', '' (butlast (y # z # zs))"
    by simp
  then show ?case using Cons.IH [of y z] by simp
qed

text \<open>
  C7. For every input (a combined status or null), \<open>getCombinedCheckSummary\<close> returns
  the summary the specification describes: the empty string for no checks; otherwise
  the checks grouped by lower-cased adjective in first-seen order; for one group
  \<open><count> <adjective> check\<close>, with \<open>checks\<close> when the count exceeds one; for several
  groups the Oxford-comma list \<open><c1> <adj1>, ..., and <cn> <adjn>\<close> followed by
  \<open>checks\<close>, whatever the last count.
\<close>

theorem getCombinedCheckSummary_summarize:
  "getCombinedCheckSummary adjective combinedCheck =
     Inr (summarize adjective (case combinedCheck of None \<Rightarrow> [] | Some cc \<Rightarrow> checks cc))"
proof (cases combinedCheck)
  case None
  then show ?thesis
    by (simp add: getCombinedCheckSummary_def summarize_def adjective_groups_def first_seen_def)
next
  case (Some cc)
  show ?thesis
  proof (cases "adjective_groups adjective (checks cc)")
    case Nil
    then have "checks cc = []" by (simp add: adjective_groups_Nil_iff)
    then show ?thesis using Some Nil
      by (simp add: getCombinedCheckSummary_def summarize_def)
  next
    case (Cons g gs)
    then have ne: "checks cc \<noteq> []"
      using adjective_groups_Nil_iff [of adjective "checks cc"] by auto
    show ?thesis
    proof (cases gs)
      case Nil
      then show ?thesis using Some Cons ne
        by (cases g) (simp add: getCombinedCheckSummary_def summarize_def conclusion_counts_groups)
    next
      case (Cons g' gs')
      have same: "count_and_conclusion = group_text"
        by (auto simp: count_and_conclusion_def group_text_def fun_eq_iff)
      have last_one:
        "join '','' (drop (length (g # g' # gs') - 1) (map group_text (g # g' # gs')))
            = last (map group_text (g # g' # gs'))"
        using join_single_last [of "map group_text (g # g' # gs')" "'',''"] by simp
      have "join '', '' (butlast (map group_text (g # g' # gs'))) @ '', and '' @
              last (map group_text (g # g' # gs')) = oxford_list (map group_text (g # g' # gs'))"
        using join_butlast_oxford [of "group_text g" "group_text g'" "map group_text gs'"]
        by simp
      then have "join '', '' (butlast (map group_text (g # g' # gs'))) @ '', and '' @
              join '','' (drop (length (g # g' # gs') - 1) (map group_text (g # g' # gs'))) @
              '' checks'' = oxford_list (map group_text (g # g' # gs')) @ '' checks''"
        unfolding last_one by simp
      then show ?thesis
        using Some \<open>adjective_groups adjective (checks cc) = g # gs\<close> Cons ne
        by (simp add: getCombinedCheckSummary_def summarize_def conclusion_counts_groups
            Let_def same)
    qed
  qed
qed

text \<open>
  C7, instances: null and the empty status give the empty string; one, two and
  twelve successful checks; one success and one failure give
  \<open>1 successful, and 1 failed checks\<close>; three and four groups, separated by commas, in
  first-seen order.
\<close>

theorem getCombinedCheckSummary_examples:
  "getCombinedCheckSummary example_adjective None = Inr '''' \<and>
   getCombinedCheckSummary example_adjective (Some \<lparr>checks = []\<rparr>) = Inr '''' \<and>
   getCombinedCheckSummary example_adjective (Some \<lparr>checks = [success_check]\<rparr>) =
     Inr ''1 successful check'' \<and>
   getCombinedCheckSummary example_adjective (Some \<lparr>checks = [success_check, success_check]\<rparr>) =
     Inr ''2 successful checks'' \<and>
   getCombinedCheckSummary example_adjective
     (Some \<lparr>checks = [success_check, success_check, success_check, success_check,
                      success_check, success_check, success_check, success_check,
                      success_check, success_check, success_check, success_check]\<rparr>) =
     Inr ''12 successful checks'' \<and>
   getCombinedCheckSummary example_adjective (Some \<lparr>checks = [success_check, failure_check]\<rparr>) =
     Inr ''1 successful, and 1 failed checks'' \<and>
   getCombinedCheckSummary example_adjective
     (Some \<lparr>checks = [failure_check, success_check, failure_check,
                      success_check\<lparr>conclusion := Failure\<rparr>]\<rparr>) =
     Inr ''3 failed, and 1 successful checks'' \<and>
   getCombinedCheckSummary example_adjective
     (Some \<lparr>checks = [success_check, failure_check, failure_check, neutral_check]\<rparr>) =
     Inr ''1 successful, 2 failed, and 1 neutral checks'' \<and>
   getCombinedCheckSummary example_adjective
     (Some \<lparr>checks = [skipped_check, success_check, failure_check, success_check,
                      neutral_check]\<rparr>) =
     Inr ''1 skipped, 2 successful, 1 failed, and 1 neutral checks''"
  using getCombinedCheckSummary_summarize [of example_adjective None]
    getCombinedCheckSummary_summarize [of example_adjective "Some \<lparr>checks = []\<rparr>"]
    getCombinedCheckSummary_summarize [of example_adjective "Some \<lparr>checks = [success_check]\<rparr>"]
    getCombinedCheckSummary_summarize
      [of example_adjective "Some \<lparr>checks = [success_check, success_check]\<rparr>"]
    getCombinedCheckSummary_summarize
      [of example_adjective
        "Some \<lparr>checks = [success_check, success_check, success_check, success_check,
                      success_check, success_check, success_check, success_check,
                      success_check, success_check, success_check, success_check]\<rparr>"]
    getCombinedCheckSummary_summarize
      [of example_adjective "Some \<lparr>checks = [success_check, failure_check]\<rparr>"]
    getCombinedCheckSummary_summarize
      [of example_adjective
        "Some \<lparr>checks = [failure_check, success_check, failure_check,
                          success_check\<lparr>conclusion := Failure\<rparr>]\<rparr>"]
    getCombinedCheckSummary_summarize
      [of example_adjective
        "Some \<lparr>checks = [success_check, failure_check, failure_check, neutral_check]\<rparr>"]
    getCombinedCheckSummary_summarize
      [of example_adjective
        "Some \<lparr>checks = [skipped_check, success_check, failure_check, success_check,
                          neutral_check]\<rparr>"]
  by (simp add: summarize_def adjective_groups_def first_seen_def success_check_def
      failure_check_def neutral_check_def skipped_check_def toLocaleLowerCase_def lower_char_def
      group_text_def show_nat.simps digit_char_def)

subsection \<open>Construction, and evaluating concrete lives\<close>

lemma constructor_total: "\<exists>c. constructor adjective t p = Inr c"
  using getCombinedCheckSummary_returns [of adjective "t (repository p) (getCommitRef (prNumber p))"]
  by (auto simp: constructor_def Let_def)

lemma life_total: "\<exists>c. life adjective t p es = Inr c"
  using constructor_total [of adjective t p] by (auto simp: life_def)

lemma life_Inr:
  "life adjective t p es = Inr c \<Longrightarrow> \<exists>c0. constructor adjective t p = Inr c0 \<and> c = run c0 es"
  by (auto simp: life_def split: sum.splits)

lemma life_after_events: "life example_adjective t p es = Inr (after_events t p es)"
  using life_total [of example_adjective t p es] by (auto simp: after_events_def)

lemma constructor_after_events: "constructor example_adjective t p = Inr (after_events t p [])"
  using life_after_events [of t p "[]"] by (auto simp: life_def run_def split: sum.splits)

lemmas popover_eval =
  life_def run_def constructor_def getCombinedCheckSummary_def conclusion_counts_def
  count_conclusion_def count_and_conclusion_def onStatus_def onStatus_after_jobs_def
  onStatus_after_logs_def settle_def subscribe_def unsubscribe_def componentDidMount_def
  componentWillUnmount_def componentDidUpdate_def viewCheckRunsOnGitHub_def rerunJobs_def
  set_of_array_def getCommitRef_def show_nat.simps digit_char_def toLocaleLowerCase_def
  lower_char_def template_of_nullable_def Let_def
  example_props_def example_props'_def nothing_cached_def one_cached_def
  success_check_def failure_check_def neutral_check_def skipped_check_def

lemma in_flight_eq:
  "in_flight =
     \<lparr>props = example_props,
      state = \<lparr>checkRuns = [success_check], checkRunSummary = ''1 successful check'',
               loadingActionLogs = True, loadingActionWorkflows = True\<rparr>,
      statusSubscription = Some 0,
      calls = [GetCheckRunActionsJobsAndLogURLS (repository example_props) ''refs/pull/7/head''
                 ''main'' [success_check],
               SubscribeToCommitStatus (repository example_props) ''refs/pull/7/head'' 0],
      disposables = 1,
      suspended = [(0, JobsAndLogURLs)],
      invocations = 1\<rparr>"
  by (simp add: in_flight_def after_events_def popover_eval)

subsection \<open>The stored summary\<close>

text \<open>
  The constructor stores the summary of the list it stores: right after construction
  the summary is the one of the check list.
\<close>

lemma constructor_summary:
  "constructor adjective t p = Inr c \<Longrightarrow>
     getCombinedCheckSummary adjective (Some \<lparr>checks = checkRuns (state c)\<rparr>) =
       Inr (checkRunSummary (state c))"
  by (auto simp: constructor_def Let_def onStatus_def getCombinedCheckSummary_def
      split: sum.splits option.splits if_splits)

text \<open>
  C1 (the code at a failing input). Nothing is cached at construction, the component
  is mounted, the subscription delivers one successful check, and the jobs and log
  URLs arrive: the check list now holds the check, the stored summary is still the
  empty string of the construction, and the summary of the list is
  \<open>1 successful check\<close>. No \<open>setState\<close> outside the constructor sets
  \<open>checkRunSummary\<close>.
\<close>

theorem summary_not_recomputed:
  "checkRuns (state (after_events nothing_cached example_props
      [Mount, Status (Some \<lparr>checks = [success_check]\<rparr>), Settle 1 (Fulfilled [success_check])])) =
     [success_check] \<and>
   checkRunSummary (state (after_events nothing_cached example_props
      [Mount, Status (Some \<lparr>checks = [success_check]\<rparr>), Settle 1 (Fulfilled [success_check])])) =
     '''' \<and>
   getCombinedCheckSummary example_adjective (Some \<lparr>checks = [success_check]\<rparr>) =
     Inr ''1 successful check''"
  by (simp add: after_events_def popover_eval)

subsection \<open>An empty status\<close>

text \<open>
  On a mounted component, a status with no checks (or a null status) sets the check
  list to empty and both loading flags to false, calls nothing on the dispatcher
  and leaves no invocation suspended; the store's call through a live subscription
  is such a call of \<open>onStatus\<close>.
\<close>

lemma onStatus_empty_status:
  "((case check of None \<Rightarrow> [] | Some cc \<Rightarrow> checks cc) = [] \<longrightarrow>
      checkRuns (state (onStatus check c)) = [] \<and>
      \<not> loadingActionLogs (state (onStatus check c)) \<and>
      \<not> loadingActionWorkflows (state (onStatus check c)) \<and>
      calls (onStatus check c) = calls c \<and>
      suspended (onStatus check c) = suspended c) \<and>
   (statusSubscription c \<noteq> None \<longrightarrow> step c (Status check) = onStatus check c)"
  by (simp add: onStatus_def Let_def)

text \<open>
  Whatever is cached, the constructor leaves both loading flags true: the state the
  constructor assigns has them true, and the \<open>setState\<close> of \<open>onStatus\<close> is dropped.
\<close>

lemma constructor_keeps_loading:
  "constructor adjective t p = Inr c \<Longrightarrow>
     loadingActionLogs (state c) \<and> loadingActionWorkflows (state c)"
  by (auto simp: constructor_def Let_def split: sum.splits)

text \<open>
  C8 (the code at a failing input). Nothing is cached when the component is
  constructed: the constructor hands \<open>onStatus\<close> a null status, the check list is
  empty and nothing is requested, but both loading flags are still true after the
  construction, and still after the mount. The same null status delivered through
  the subscription does set both to false.
\<close>

theorem construction_with_empty_status_keeps_loading:
  "nothing_cached (repository example_props) (getCommitRef (prNumber example_props)) = None \<and>
   state (after_events nothing_cached example_props []) =
     \<lparr>checkRuns = [], checkRunSummary = '''',
      loadingActionLogs = True, loadingActionWorkflows = True\<rparr> \<and>
   calls (after_events nothing_cached example_props []) = [] \<and>
   suspended (after_events nothing_cached example_props []) = [] \<and>
   state (after_events nothing_cached example_props [Mount]) =
     \<lparr>checkRuns = [], checkRunSummary = '''',
      loadingActionLogs = True, loadingActionWorkflows = True\<rparr> \<and>
   state (after_events nothing_cached example_props [Mount, Status None]) =
     \<lparr>checkRuns = [], checkRunSummary = '''',
      loadingActionLogs = False, loadingActionWorkflows = False\<rparr>"
  by (simp add: after_events_def popover_eval)

subsection \<open>The two enrichment requests\<close>

lemma rerun_loop:
  "foldl (\<lambda>c' id'. case id' of None \<Rightarrow> c'
              | Some i \<Rightarrow> c'\<lparr>calls := calls c' @ [RerequestCheckSuite (repository (props c')) i]\<rparr>)
     c ids
   = c\<lparr>calls := calls c @ map (RerequestCheckSuite (repository (props c))) (somes ids)\<rparr>"
  by (induction ids rule: rev_induct) (auto simp: somes_def split: option.splits)

lemma rerunJobs_eq:
  "rerunJobs c = c\<lparr>calls := calls c @ map (RerequestCheckSuite (repository (props c)))
       (somes (set_of_array (map checkSuiteId (checkRuns (state c)))))\<rparr>"
  by (simp add: rerunJobs_def rerun_loop)

lemma log_requests_rerun: "log_requests (calls (rerunJobs c)) = log_requests (calls c)"
  by (simp add: rerunJobs_eq log_requests_def filter_map comp_def)

lemma log_requests_subscribe: "log_requests (calls (subscribe c)) = log_requests (calls c)"
  by (simp add: subscribe_def unsubscribe_def Let_def log_requests_def split: option.splits)

lemma suspended_subscribe: "suspended (subscribe c) = suspended c"
  by (simp add: subscribe_def unsubscribe_def Let_def split: option.splits)

lemma suspended_rerun: "suspended (rerunJobs c) = suspended c"
  by (simp add: rerunJobs_eq)

text \<open>
  Only one thing issues a request for workflow run logs: the arrival of the jobs and
  log URLs an invocation waits for, while a subscription is held.
\<close>

lemma step_issues_log_request:
  assumes "log_requests (calls (step c e)) \<noteq> log_requests (calls c)"
  shows "\<exists>i r. e = Settle i (Fulfilled r) \<and> map_of (suspended c) i = Some JobsAndLogURLs \<and>
           statusSubscription c \<noteq> None \<and>
           map_of (suspended (step c e)) i = Some WorkflowRunLogs"
proof (cases e)
  case Mount
  with assms show ?thesis by (simp add: componentDidMount_def log_requests_subscribe)
next
  case (NewProps p t)
  with assms show ?thesis
    by (simp add: componentDidUpdate_def Let_def log_requests_subscribe split: if_splits)
next
  case Unmount
  with assms show ?thesis
    by (simp add: componentWillUnmount_def unsubscribe_def log_requests_def split: option.splits)
next
  case (Status check)
  with assms show ?thesis
    by (simp add: onStatus_def Let_def log_requests_def split: if_splits)
next
  case (Settle i outcome)
  with assms show ?thesis
    by (auto simp: settle_def onStatus_after_jobs_def onStatus_after_logs_def Let_def
        log_requests_def AList.update_conv'
        split: option.splits settlement.splits awaited.splits if_splits)
next
  case Rerun
  with assms show ?thesis by (simp add: log_requests_rerun)
next
  case (ViewOnGitHub x)
  with assms show ?thesis
    by (simp add: viewCheckRunsOnGitHub_def log_requests_def split: option.splits)
qed

lemma step_starts_log_wait:
  assumes "map_of (suspended (step c e)) i = Some WorkflowRunLogs"
    and "map_of (suspended c) i \<noteq> Some WorkflowRunLogs"
  shows "(\<exists>r. e = Settle i (Fulfilled r)) \<and> map_of (suspended c) i = Some JobsAndLogURLs \<and>
           statusSubscription c \<noteq> None"
proof (cases e)
  case Mount
  with assms show ?thesis by (simp add: componentDidMount_def suspended_subscribe)
next
  case (NewProps p t)
  with assms show ?thesis
    by (simp add: componentDidUpdate_def Let_def suspended_subscribe split: if_splits)
next
  case Unmount
  with assms show ?thesis
    by (simp add: componentWillUnmount_def unsubscribe_def split: option.splits)
next
  case (Status check)
  with assms show ?thesis
    by (simp add: onStatus_def Let_def AList.update_conv' split: if_splits)
next
  case (Settle j outcome)
  with assms show ?thesis
    by (auto simp: settle_def onStatus_after_jobs_def onStatus_after_logs_def Let_def
        AList.update_conv' AList.delete_conv'
        split: option.splits settlement.splits awaited.splits if_splits)
next
  case Rerun
  with assms show ?thesis by (simp add: suspended_rerun)
next
  case (ViewOnGitHub x)
  with assms show ?thesis
    by (simp add: viewCheckRunsOnGitHub_def split: option.splits)
qed

lemma jobs_settled_live:
  assumes "map_of (suspended c) i = Some JobsAndLogURLs" and "statusSubscription c \<noteq> None"
  shows "state (settle i (Fulfilled r) c) =
           (state c)\<lparr>checkRuns := r, loadingActionWorkflows := False\<rparr> \<and>
         calls (settle i (Fulfilled r) c) =
           calls c @ [GetActionsWorkflowRunLogs (repository (props c))
                        (getCommitRef (prNumber (props c))) r] \<and>
         map_of (suspended (settle i (Fulfilled r) c)) i = Some WorkflowRunLogs"
  using assms
  by (auto simp: settle_def onStatus_after_jobs_def Let_def AList.update_conv')

lemma logs_settled_live:
  assumes "map_of (suspended c) i = Some WorkflowRunLogs" and "statusSubscription c \<noteq> None"
  shows "state (settle i (Fulfilled r) c) = (state c)\<lparr>checkRuns := r, loadingActionLogs := False\<rparr> \<and>
         calls (settle i (Fulfilled r) c) = calls c \<and>
         map_of (suspended (settle i (Fulfilled r) c)) i = None"
  using assms
  by (auto simp: settle_def onStatus_after_logs_def Let_def AList.delete_conv')

text \<open>
  C5, as stated, fails: nothing sets \<open>loadingActionLogs\<close> to true but the constructor,
  so the flag is not true after the jobs and log URLs of a later invocation arrive.
  The component is mounted, the subscription delivers an empty status (both flags
  become false) and then one check; that invocation (number 2) waits for the jobs and
  log URLs under a live subscription; when they arrive the list is replaced,
  \<open>loadingActionWorkflows\<close> is false, and \<open>loadingActionLogs\<close> is false as well.
\<close>

theorem jobs_settled_logs_flag_already_cleared:
  "map_of (suspended (after_events nothing_cached example_props
      [Mount, Status (Some \<lparr>checks = []\<rparr>), Status (Some \<lparr>checks = [success_check]\<rparr>)])) 2 =
     Some JobsAndLogURLs \<and>
   statusSubscription (after_events nothing_cached example_props
      [Mount, Status (Some \<lparr>checks = []\<rparr>), Status (Some \<lparr>checks = [success_check]\<rparr>)]) = Some 0 \<and>
   state (after_events nothing_cached example_props
      [Mount, Status (Some \<lparr>checks = []\<rparr>), Status (Some \<lparr>checks = [success_check]\<rparr>),
       Settle 2 (Fulfilled [failure_check])]) =
     \<lparr>checkRuns = [failure_check], checkRunSummary = '''',
      loadingActionLogs = False, loadingActionWorkflows = False\<rparr>"
  by (simp add: after_events_def popover_eval)

text \<open>
  C5, amended. Within one invocation of \<open>onStatus\<close> on a non-empty list: the request
  for workflow run logs is issued, and the wait for them begins, only when the jobs
  and log URLs of that same invocation arrive under a live subscription; at that
  moment the list is replaced by the one that arrived and \<open>loadingActionWorkflows\<close> is
  cleared, while \<open>loadingActionLogs\<close> is left as it was; when the logs then arrive
  under a live subscription the list is replaced again and \<open>loadingActionLogs\<close> is
  cleared.
\<close>

theorem enrichment_phases:
  "(log_requests (calls (step c e)) \<noteq> log_requests (calls c) \<longrightarrow>
      (\<exists>j r'. e = Settle j (Fulfilled r') \<and> map_of (suspended c) j = Some JobsAndLogURLs \<and>
              statusSubscription c \<noteq> None \<and>
              map_of (suspended (step c e)) j = Some WorkflowRunLogs)) \<and>
   (map_of (suspended (step c e)) i = Some WorkflowRunLogs \<and>
    map_of (suspended c) i \<noteq> Some WorkflowRunLogs \<longrightarrow>
      (\<exists>r'. e = Settle i (Fulfilled r')) \<and> map_of (suspended c) i = Some JobsAndLogURLs \<and>
      statusSubscription c \<noteq> None) \<and>
   (map_of (suspended c) i = Some JobsAndLogURLs \<and> statusSubscription c \<noteq> None \<longrightarrow>
      state (settle i (Fulfilled r) c) =
        (state c)\<lparr>checkRuns := r, loadingActionWorkflows := False\<rparr> \<and>
      loadingActionLogs (state (settle i (Fulfilled r) c)) = loadingActionLogs (state c) \<and>
      calls (settle i (Fulfilled r) c) =
        calls c @ [GetActionsWorkflowRunLogs (repository (props c))
                     (getCommitRef (prNumber (props c))) r] \<and>
      map_of (suspended (settle i (Fulfilled r) c)) i = Some WorkflowRunLogs) \<and>
   (map_of (suspended c) i = Some WorkflowRunLogs \<and> statusSubscription c \<noteq> None \<longrightarrow>
      state (settle i (Fulfilled r) c) = (state c)\<lparr>checkRuns := r, loadingActionLogs := False\<rparr> \<and>
      calls (settle i (Fulfilled r) c) = calls c \<and>
      map_of (suspended (settle i (Fulfilled r) c)) i = None)"
proof -
  have a: "log_requests (calls (step c e)) \<noteq> log_requests (calls c) \<longrightarrow>
      (\<exists>j r'. e = Settle j (Fulfilled r') \<and> map_of (suspended c) j = Some JobsAndLogURLs \<and>
              statusSubscription c \<noteq> None \<and>
              map_of (suspended (step c e)) j = Some WorkflowRunLogs)"
    using step_issues_log_request [of c e] by blast
  have b: "map_of (suspended (step c e)) i = Some WorkflowRunLogs \<and>
    map_of (suspended c) i \<noteq> Some WorkflowRunLogs \<longrightarrow>
      (\<exists>r'. e = Settle i (Fulfilled r')) \<and> map_of (suspended c) i = Some JobsAndLogURLs \<and>
      statusSubscription c \<noteq> None"
    using step_starts_log_wait [of c e i] by blast
  have j: "map_of (suspended c) i = Some JobsAndLogURLs \<and> statusSubscription c \<noteq> None \<longrightarrow>
      state (settle i (Fulfilled r) c) =
        (state c)\<lparr>checkRuns := r, loadingActionWorkflows := False\<rparr> \<and>
      loadingActionLogs (state (settle i (Fulfilled r) c)) = loadingActionLogs (state c) \<and>
      calls (settle i (Fulfilled r) c) =
        calls c @ [GetActionsWorkflowRunLogs (repository (props c))
                     (getCommitRef (prNumber (props c))) r] \<and>
      map_of (suspended (settle i (Fulfilled r) c)) i = Some WorkflowRunLogs"
    using jobs_settled_live [of c i r] by simp
  have l: "map_of (suspended c) i = Some WorkflowRunLogs \<and> statusSubscription c \<noteq> None \<longrightarrow>
      state (settle i (Fulfilled r) c) = (state c)\<lparr>checkRuns := r, loadingActionLogs := False\<rparr> \<and>
      calls (settle i (Fulfilled r) c) = calls c \<and>
      map_of (suspended (settle i (Fulfilled r) c)) i = None"
    using logs_settled_live [of c i r] by simp
  from a b j l show ?thesis by blast
qed

text \<open>
  C5 amended, instance: the constructor's invocation on the one cached check. Here
  \<open>loadingActionLogs\<close> was true and stays true when the jobs and log URLs arrive,
  and is cleared when the logs arrive.
\<close>

theorem enrichment_phases_witness:
  "state (settle 0 (Fulfilled [failure_check]) in_flight) =
     \<lparr>checkRuns = [failure_check], checkRunSummary = ''1 successful check'',
      loadingActionLogs = True, loadingActionWorkflows = False\<rparr> \<and>
   calls (settle 0 (Fulfilled [failure_check]) in_flight) =
     calls in_flight @
       [GetActionsWorkflowRunLogs (repository example_props) ''refs/pull/7/head'' [failure_check]] \<and>
   state (settle 0 (Fulfilled [success_check]) (settle 0 (Fulfilled [failure_check]) in_flight)) =
     \<lparr>checkRuns = [success_check], checkRunSummary = ''1 successful check'',
      loadingActionLogs = False, loadingActionWorkflows = False\<rparr>"
proof -
  have j: "map_of (suspended in_flight) 0 = Some JobsAndLogURLs \<and> statusSubscription in_flight \<noteq> None"
    by (simp add: in_flight_eq)
  have new: "log_requests (calls (step in_flight (Settle 0 (Fulfilled [failure_check])))) \<noteq>
      log_requests (calls in_flight)"
    by (simp add: in_flight_eq log_requests_def settle_def onStatus_after_jobs_def)
  have w: "map_of (suspended (step in_flight (Settle 0 (Fulfilled [failure_check])))) 0 =
      Some WorkflowRunLogs \<and> map_of (suspended in_flight) 0 \<noteq> Some WorkflowRunLogs"
    by (simp add: in_flight_eq settle_def onStatus_after_jobs_def)
  note first = enrichment_phases
    [of in_flight "Settle 0 (Fulfilled [failure_check])" 0 "[failure_check]"]
  have s1: "state (settle 0 (Fulfilled [failure_check]) in_flight) =
      (state in_flight)\<lparr>checkRuns := [failure_check], loadingActionWorkflows := False\<rparr>"
    and c1: "calls (settle 0 (Fulfilled [failure_check]) in_flight) =
      calls in_flight @ [GetActionsWorkflowRunLogs (repository (props in_flight))
                     (getCommitRef (prNumber (props in_flight))) [failure_check]]"
    and l: "map_of (suspended (settle 0 (Fulfilled [failure_check]) in_flight)) 0 =
      Some WorkflowRunLogs"
    using first j new w by blast+
  have live: "statusSubscription (settle 0 (Fulfilled [failure_check]) in_flight) \<noteq> None"
    by (simp add: in_flight_eq settle_def onStatus_after_jobs_def)
  have s2: "state (settle 0 (Fulfilled [success_check])
               (settle 0 (Fulfilled [failure_check]) in_flight)) =
      (state (settle 0 (Fulfilled [failure_check]) in_flight))
        \<lparr>checkRuns := [success_check], loadingActionLogs := False\<rparr>"
    using enrichment_phases
      [of "settle 0 (Fulfilled [failure_check]) in_flight" Mount 0 "[success_check]"] l live
    by blast
  have r: "getCommitRef (prNumber (props in_flight)) = ''refs/pull/7/head''"
    by (simp add: in_flight_eq popover_eval)
  show ?thesis
    unfolding s2 s1 c1 r by (simp add: in_flight_eq)
qed

subsection \<open>What a continuation tests before it sets the state\<close>

text \<open>
  C10. A continuation of \<open>onStatus\<close> looks at \<open>statusSubscription\<close> and at nothing
  else. The field is null right after construction (until the first subscribe), and
  then, as after an unmount, an arriving result is dropped: state and calls are as
  before and the invocation is over. While any subscription is held an arriving
  result is applied, whichever invocation \<open>i\<close> it belongs to.
\<close>

theorem continuation_tests_only_the_handle:
  "(constructor adjective tryGetCommitStatus p = Inr c0 \<longrightarrow> statusSubscription c0 = None) \<and>
   (map_of (suspended c) i = Some w \<and> statusSubscription c = None \<longrightarrow>
      state (settle i (Fulfilled r) c) = state c \<and>
      calls (settle i (Fulfilled r) c) = calls c \<and>
      map_of (suspended (settle i (Fulfilled r) c)) i = None) \<and>
   (map_of (suspended c) i = Some w \<and> statusSubscription c \<noteq> None \<longrightarrow>
      checkRuns (state (settle i (Fulfilled r) c)) = r \<and>
      (w = JobsAndLogURLs \<longrightarrow> \<not> loadingActionWorkflows (state (settle i (Fulfilled r) c))) \<and>
      (w = WorkflowRunLogs \<longrightarrow> \<not> loadingActionLogs (state (settle i (Fulfilled r) c))))"
  by (auto simp: constructor_def onStatus_def settle_def onStatus_after_jobs_def
      onStatus_after_logs_def Let_def AList.delete_conv'
      split: option.splits settlement.splits awaited.splits sum.splits if_splits)

text \<open>
  C10, instances: the result for the constructor's invocation arrives before the
  component is mounted and is dropped; and with invocations 1 and 2 both waiting,
  the result for the older one arrives after the newer one's and is applied.
\<close>

theorem continuation_tests_only_the_handle_witness:
  "statusSubscription (after_events one_cached example_props []) = None \<and>
   state (settle 0 (Fulfilled [failure_check]) (after_events one_cached example_props [])) =
     state (after_events one_cached example_props []) \<and>
   checkRuns (state (settle 1 (Fulfilled [success_check])
     (after_events nothing_cached example_props
        [Mount, Status (Some \<lparr>checks = [success_check]\<rparr>),
         Status (Some \<lparr>checks = [failure_check]\<rparr>), Settle 2 (Fulfilled [failure_check])]))) =
     [success_check]"
proof -
  have c0: "constructor example_adjective one_cached example_props =
      Inr (after_events one_cached example_props [])"
    by (rule constructor_after_events)
  have w0: "map_of (suspended (after_events one_cached example_props [])) 0 = Some JobsAndLogURLs"
    by (simp add: after_events_def popover_eval)
  note t0 = continuation_tests_only_the_handle
    [of example_adjective one_cached example_props "after_events one_cached example_props []"
      "after_events one_cached example_props []" 0 JobsAndLogURLs "[failure_check]"]
  have n: "statusSubscription (after_events one_cached example_props []) = None"
    using t0 c0 by blast
  have u: "state (settle 0 (Fulfilled [failure_check]) (after_events one_cached example_props [])) =
     state (after_events one_cached example_props [])"
    using t0 n w0 by blast
  have w1: "map_of (suspended (after_events nothing_cached example_props
        [Mount, Status (Some \<lparr>checks = [success_check]\<rparr>),
         Status (Some \<lparr>checks = [failure_check]\<rparr>), Settle 2 (Fulfilled [failure_check])])) 1 =
      Some JobsAndLogURLs \<and>
    statusSubscription (after_events nothing_cached example_props
        [Mount, Status (Some \<lparr>checks = [success_check]\<rparr>),
         Status (Some \<lparr>checks = [failure_check]\<rparr>), Settle 2 (Fulfilled [failure_check])]) \<noteq> None"
    by (simp add: after_events_def popover_eval)
  have a: "checkRuns (state (settle 1 (Fulfilled [success_check])
     (after_events nothing_cached example_props
        [Mount, Status (Some \<lparr>checks = [success_check]\<rparr>),
         Status (Some \<lparr>checks = [failure_check]\<rparr>), Settle 2 (Fulfilled [failure_check])]))) =
     [success_check]"
    using continuation_tests_only_the_handle
      [of example_adjective one_cached example_props "after_events one_cached example_props []"
        "after_events nothing_cached example_props
        [Mount, Status (Some \<lparr>checks = [success_check]\<rparr>),
         Status (Some \<lparr>checks = [failure_check]\<rparr>), Settle 2 (Fulfilled [failure_check])]"
        1 JobsAndLogURLs "[success_check]"] w1
    by blast
  from n u a show ?thesis by blast
qed

subsection \<open>After the unmount\<close>

lemma settle_without_subscription:
  "statusSubscription c = None \<Longrightarrow>
     state (settle i outcome c) = state c \<and> calls (settle i outcome c) = calls c \<and>
     statusSubscription (settle i outcome c) = None \<and> props (settle i outcome c) = props c"
  by (simp add: settle_def onStatus_after_jobs_def onStatus_after_logs_def Let_def
      split: option.splits settlement.splits awaited.splits)

lemma settlements_without_subscription:
  "statusSubscription c = None \<Longrightarrow>
     state (run c (settlements rs)) = state c \<and> calls (run c (settlements rs)) = calls c \<and>
     statusSubscription (run c (settlements rs)) = None"
proof (induction rs arbitrary: c)
  case Nil
  then show ?case by (simp add: run_def settlements_def)
next
  case (Cons r rs)
  have "run c (settlements (r # rs)) = run (settle (fst r) (snd r) c) (settlements rs)"
    by (simp add: run_def settlements_def)
  then show ?case
    using Cons.IH [of "settle (fst r) (snd r) c"] settle_without_subscription [OF Cons.prems]
    by simp
qed

text \<open>
  C4. \<open>componentWillUnmount\<close> leaves \<open>statusSubscription\<close> null and the state as it
  was; whatever awaited promises settle afterwards, in whatever order and with
  whatever results, the state (check list, summary, both loading flags) stays as it
  was at the unmount, and no further call is made.
\<close>

theorem no_state_change_after_unmount:
  "statusSubscription (componentWillUnmount c) = None \<and>
   state (componentWillUnmount c) = state c \<and>
   state (run (componentWillUnmount c) (settlements rs)) = state c \<and>
   calls (run (componentWillUnmount c) (settlements rs)) = calls (componentWillUnmount c) \<and>
   statusSubscription (run (componentWillUnmount c) (settlements rs)) = None"
proof -
  have n: "statusSubscription (componentWillUnmount c) = None"
    by (simp add: componentWillUnmount_def unsubscribe_def split: option.splits)
  have s: "state (componentWillUnmount c) = state c"
    by (simp add: componentWillUnmount_def unsubscribe_def split: option.splits)
  show ?thesis using settlements_without_subscription [OF n, of rs] n s by simp
qed

text \<open>
  C4, instance: the component is unmounted while its first invocation waits for the
  jobs and log URLs; they arrive afterwards.
\<close>

theorem no_state_change_after_unmount_witness:
  "state (run (componentWillUnmount in_flight)
            (settlements [(0, Fulfilled [failure_check]), (0, Fulfilled [])])) =
     \<lparr>checkRuns = [success_check], checkRunSummary = ''1 successful check'',
      loadingActionLogs = True, loadingActionWorkflows = True\<rparr> \<and>
   calls (run (componentWillUnmount in_flight)
            (settlements [(0, Fulfilled [failure_check]), (0, Fulfilled [])])) =
     [GetCheckRunActionsJobsAndLogURLS (repository example_props) ''refs/pull/7/head''
        ''main'' [success_check],
      SubscribeToCommitStatus (repository example_props) ''refs/pull/7/head'' 0,
      Dispose 0]"
  using no_state_change_after_unmount
    [of in_flight "[(0, Fulfilled [failure_check]), (0, Fulfilled [])]"]
  by (simp add: in_flight_eq componentWillUnmount_def unsubscribe_def)

subsection \<open>The subscription\<close>

lemma live_snoc [simp]: "live_subscriptions (cs @ [x]) = live_after (live_subscriptions cs) x"
  by (simp add: live_subscriptions_def)

lemma disposals_snoc [simp]:
  "disposals (cs @ [x]) = disposals cs @ (case x of Dispose d \<Rightarrow> [d] | _ \<Rightarrow> [])"
  by (simp add: disposals_def)

lemma subscriptions_snoc [simp]:
  "subscriptions (cs @ [x]) =
     subscriptions cs @ (case x of SubscribeToCommitStatus r ref d \<Rightarrow> [d] | _ \<Rightarrow> [])"
  by (simp add: subscriptions_def)

lemma live_rerequests [simp]:
  "live_subscriptions (cs @ map (RerequestCheckSuite r) is) = live_subscriptions cs"
  by (induction "is" rule: rev_induct) (simp_all flip: append_assoc)

lemma disposals_rerequests [simp]: "disposals (cs @ map (RerequestCheckSuite r) is) = disposals cs"
  by (induction "is" rule: rev_induct) (simp_all flip: append_assoc)

lemma subscriptions_rerequests [simp]:
  "subscriptions (cs @ map (RerequestCheckSuite r) is) = subscriptions cs"
  by (induction "is" rule: rev_induct) (simp_all flip: append_assoc)

text \<open>Every method keeps the invariant; the constructor establishes it.\<close>

lemma inv_unsubscribe: "subscription_inv c \<Longrightarrow> subscription_inv (unsubscribe c)"
  by (auto simp: subscription_inv_def unsubscribe_def held_def split: option.splits)

lemma held_unsubscribe: "held (unsubscribe c) = []"
  by (simp add: unsubscribe_def held_def split: option.splits)

lemma inv_subscribe: "subscription_inv c \<Longrightarrow> subscription_inv (subscribe c)"
proof -
  assume "subscription_inv c"
  then have i: "subscription_inv (unsubscribe c)" by (rule inv_unsubscribe)
  have h: "held (unsubscribe c) = []" by (rule held_unsubscribe)
  show ?thesis using i h
    by (fastforce simp: subscription_inv_def subscribe_def Let_def held_def split: option.splits)
qed

lemma inv_onStatus: "subscription_inv c \<Longrightarrow> subscription_inv (onStatus check c)"
  by (simp add: subscription_inv_def onStatus_def Let_def held_def)

lemma inv_settle: "subscription_inv c \<Longrightarrow> subscription_inv (settle i outcome c)"
  by (simp add: subscription_inv_def settle_def onStatus_after_jobs_def onStatus_after_logs_def
      Let_def held_def split: option.splits settlement.splits awaited.splits)

lemma inv_rerunJobs: "subscription_inv c \<Longrightarrow> subscription_inv (rerunJobs c)"
  by (simp add: subscription_inv_def rerunJobs_eq held_def)

lemma inv_view: "subscription_inv c \<Longrightarrow> subscription_inv (viewCheckRunsOnGitHub x c)"
  by (simp add: subscription_inv_def viewCheckRunsOnGitHub_def held_def split: option.splits)

lemma inv_frame:
  "subscription_inv c \<Longrightarrow> calls c' = calls c \<Longrightarrow> statusSubscription c' = statusSubscription c \<Longrightarrow>
   disposables c' = disposables c \<Longrightarrow> subscription_inv c'"
  by (simp add: subscription_inv_def held_def)

lemma inv_componentDidUpdate:
  assumes "subscription_inv c"
  shows "subscription_inv (componentDidUpdate t prev (c\<lparr>props := p\<rparr>))"
proof -
  have moved: "subscription_inv (c\<lparr>props := p\<rparr>)"
    using assms by (rule inv_frame) simp_all
  have "subscription_inv (subscribe (c\<lparr>props := p, state := (state c)\<lparr>checkRuns := xs\<rparr>\<rparr>))" for xs
    by (rule inv_subscribe, rule inv_frame [OF assms]) simp_all
  then show ?thesis using moved
    by (simp add: componentDidUpdate_def Let_def)
qed

lemma inv_step: "subscription_inv c \<Longrightarrow> subscription_inv (step c e)"
  by (cases e) (simp_all add: inv_subscribe inv_unsubscribe inv_onStatus inv_settle inv_rerunJobs
      inv_view inv_componentDidUpdate componentDidMount_def componentWillUnmount_def)

lemma inv_run: "subscription_inv c \<Longrightarrow> subscription_inv (run c es)"
  unfolding run_def by (induction es arbitrary: c) (simp_all add: inv_step)

lemma inv_constructor: "constructor adjective t p = Inr c \<Longrightarrow> subscription_inv c"
  by (auto simp: constructor_def Let_def subscription_inv_def onStatus_def held_def
      live_subscriptions_def disposals_def subscriptions_def split: sum.splits if_splits)

text \<open>
  C6. At every point of a component's life (after the constructor and any sequence of
  events): the live subscriptions are exactly the one the instance holds, so there is
  at most one; no disposable is disposed of twice; every subscription made is either
  the one held or has been disposed of. \<open>subscribe\<close> disposes of the one held, if
  any, and then makes the new one, which is then the only live one;
  \<open>componentWillUnmount\<close> disposes of the one held, if any, and leaves none live.
\<close>

theorem one_live_subscription:
  assumes "life adjective tryGetCommitStatus p es = Inr c"
  shows "live_subscriptions (calls c) = held c \<and>
         length (live_subscriptions (calls c)) \<le> 1 \<and>
         distinct (disposals (calls c)) \<and>
         distinct (subscriptions (calls c)) \<and>
         set (subscriptions (calls c)) = set (disposals (calls c)) \<union> set (held c) \<and>
         calls (subscribe c) =
           calls c @ map Dispose (held c) @
             [SubscribeToCommitStatus (repository (props c)) (getCommitRef (prNumber (props c)))
                (disposables c)] \<and>
         live_subscriptions (calls (subscribe c)) = [disposables c] \<and>
         held (subscribe c) = [disposables c] \<and>
         calls (componentWillUnmount c) = calls c @ map Dispose (held c) \<and>
         live_subscriptions (calls (componentWillUnmount c)) = [] \<and>
         held (componentWillUnmount c) = []"
proof -
  from assms obtain c0 where "constructor adjective tryGetCommitStatus p = Inr c0" "c = run c0 es"
    using life_Inr by blast
  then have inv: "subscription_inv c"
    using inv_constructor inv_run by blast
  have sub: "subscription_inv (subscribe c)" using inv by (rule inv_subscribe)
  have unsub: "subscription_inv (unsubscribe c)" using inv by (rule inv_unsubscribe)
  have h: "held (subscribe c) = [disposables c]"
    by (simp add: subscribe_def unsubscribe_def held_def Let_def split: option.splits)
  have c1: "calls (subscribe c) =
           calls c @ map Dispose (held c) @
             [SubscribeToCommitStatus (repository (props c)) (getCommitRef (prNumber (props c)))
                (disposables c)]"
    by (simp add: subscribe_def unsubscribe_def held_def Let_def split: option.splits)
  have c2: "calls (componentWillUnmount c) = calls c @ map Dispose (held c)"
    by (simp add: componentWillUnmount_def unsubscribe_def held_def split: option.splits)
  have l: "length (live_subscriptions (calls c)) \<le> 1"
    using inv by (simp add: subscription_inv_def held_def split: option.splits)
  have l1: "live_subscriptions (calls (subscribe c)) = [disposables c]"
    using sub h by (simp add: subscription_inv_def)
  have l2: "live_subscriptions (calls (componentWillUnmount c)) = []"
    using unsub held_unsubscribe [of c] by (simp add: subscription_inv_def componentWillUnmount_def)
  have h2: "held (componentWillUnmount c) = []"
    by (simp add: componentWillUnmount_def held_unsubscribe)
  show ?thesis using inv h c1 c2 l l1 l2 h2
    by (simp add: subscription_inv_def)
qed

text \<open>
  C6, instance: a life with a mount and two changes of the pull request. Disposables
  0 and 1 have each been disposed of once, before the next subscription was made;
  disposable 2 is live; an unmount leaves none.
\<close>

theorem one_live_subscription_witness:
  "life example_adjective nothing_cached example_props example_life =
     Inr (after_events nothing_cached example_props example_life) \<and>
   calls (after_events nothing_cached example_props example_life) =
     [SubscribeToCommitStatus (repository example_props) ''refs/pull/7/head'' 0,
      GetCheckRunActionsJobsAndLogURLS (repository example_props) ''refs/pull/7/head'' ''main''
        [success_check],
      Dispose 0,
      SubscribeToCommitStatus (repository example_props) ''refs/pull/8/head'' 1,
      GetActionsWorkflowRunLogs (repository example_props) ''refs/pull/8/head'' [failure_check],
      RerequestCheckSuite (repository example_props) 11,
      Dispose 1,
      SubscribeToCommitStatus (repository example_props) ''refs/pull/7/head'' 2] \<and>
   live_subscriptions (calls (after_events nothing_cached example_props example_life)) = [2] \<and>
   disposals (calls (after_events nothing_cached example_props example_life)) = [0, 1] \<and>
   live_subscriptions (calls (componentWillUnmount
      (after_events nothing_cached example_props example_life))) = []"
proof -
  have e: "life example_adjective nothing_cached example_props example_life =
     Inr (after_events nothing_cached example_props example_life)"
    by (rule life_after_events)
  have c: "calls (after_events nothing_cached example_props example_life) =
     [SubscribeToCommitStatus (repository example_props) ''refs/pull/7/head'' 0,
      GetCheckRunActionsJobsAndLogURLS (repository example_props) ''refs/pull/7/head'' ''main''
        [success_check],
      Dispose 0,
      SubscribeToCommitStatus (repository example_props) ''refs/pull/8/head'' 1,
      GetActionsWorkflowRunLogs (repository example_props) ''refs/pull/8/head'' [failure_check],
      RerequestCheckSuite (repository example_props) 11,
      Dispose 1,
      SubscribeToCommitStatus (repository example_props) ''refs/pull/7/head'' 2]"
    by (simp add: after_events_def popover_eval example_life_def)
  have h: "held (after_events nothing_cached example_props example_life) = [2]"
    by (simp add: after_events_def popover_eval example_life_def held_def)
  note t = one_live_subscription [OF e]
  have l: "live_subscriptions (calls (after_events nothing_cached example_props example_life)) = [2]"
    using t h by simp
  have d: "disposals (calls (after_events nothing_cached example_props example_life)) = [0, 1]"
    unfolding c by (simp add: disposals_def)
  have u: "live_subscriptions (calls (componentWillUnmount
      (after_events nothing_cached example_props example_life))) = []"
    using t by blast
  show ?thesis
    using e c l d u by blast
qed

subsection \<open>A change of repository or pull request\<close>




subsection \<open>Re-running the jobs\<close>

lemma set_of_array_first_seen: "set_of_array xs = first_seen xs"
proof (induction xs rule: rev_induct)
  case Nil
  show ?case by (simp add: set_of_array_def first_seen_def)
next
  case (snoc x xs)
  have "set_of_array (xs @ [x]) =
      (if x \<in> set (set_of_array xs) then set_of_array xs else set_of_array xs @ [x])"
    by (simp add: set_of_array_def)
  then show ?case by (simp add: snoc.IH first_seen_snoc set_first_seen)
qed

lemma distinct_somes: "distinct xs \<Longrightarrow> distinct (somes xs)"
  by (induction xs) (auto simp: somes_def split: option.splits)

lemma set_somes: "set (somes xs) = {i. Some i \<in> set xs}"
  by (induction xs) (auto simp: somes_def split: option.splits)

lemma count_list_distinct: "distinct xs \<Longrightarrow> count_list xs x = (if x \<in> set xs then 1 else 0)"
  by (induction xs) auto

text \<open>
  C9. \<open>rerunJobs\<close> changes nothing but the log, to which it appends one
  \<open>rerequestCheckSuite\<close> call for each element of \<open>suite_ids\<close> of the check list; that
  list has no duplicates and holds exactly the identifiers that occur, non-null, as
  the \<open>checkSuiteId\<close> of a check: each is re-requested once, however many checks
  share it, and a null identifier leads to no call.
\<close>

theorem rerunJobs_once_per_suite:
  "rerunJobs c =
     c\<lparr>calls := calls c @
          map (RerequestCheckSuite (repository (props c))) (suite_ids (checkRuns (state c)))\<rparr> \<and>
   distinct (suite_ids (checkRuns (state c))) \<and>
   set (suite_ids (checkRuns (state c))) = {i. Some i \<in> set (map checkSuiteId (checkRuns (state c)))} \<and>
   count_list (suite_ids (checkRuns (state c))) i =
     (if Some i \<in> set (map checkSuiteId (checkRuns (state c))) then 1 else 0)"
proof -
  have d: "distinct (suite_ids (checkRuns (state c)))"
    unfolding suite_ids_def by (rule distinct_somes) (rule distinct_first_seen)
  have s: "set (suite_ids (checkRuns (state c))) =
      {i. Some i \<in> set (map checkSuiteId (checkRuns (state c)))}"
    unfolding suite_ids_def by (simp only: set_somes set_first_seen)
  have r: "rerunJobs c =
     c\<lparr>calls := calls c @
          map (RerequestCheckSuite (repository (props c))) (suite_ids (checkRuns (state c)))\<rparr>"
    by (simp add: rerunJobs_eq set_of_array_first_seen suite_ids_def)
  have "count_list (suite_ids (checkRuns (state c))) i =
     (if Some i \<in> set (map checkSuiteId (checkRuns (state c))) then 1 else 0)"
    using count_list_distinct [OF d, of i] s by auto
  with d s r show ?thesis by blast
qed

text \<open>
  C9, instance: five checks, three of suite 11, one of suite 12 and one without a
  suite: two calls, for 11 and for 12.
\<close>

theorem rerunJobs_once_per_suite_witness:
  "calls (rerunJobs
      \<lparr>props = example_props,
       state = \<lparr>checkRuns = [success_check, failure_check,
                               failure_check\<lparr>checkSuiteId := None\<rparr>,
                               failure_check\<lparr>checkSuiteId := Some 12\<rparr>, success_check],
                checkRunSummary = '''', loadingActionLogs = False, loadingActionWorkflows = False\<rparr>,
       statusSubscription = Some 0, calls = [], disposables = 1, suspended = [],
       invocations = 1\<rparr>) =
   [RerequestCheckSuite (repository example_props) 11, RerequestCheckSuite (repository example_props) 12]"
  using rerunJobs_once_per_suite [of
      "\<lparr>props = example_props,
       state = \<lparr>checkRuns = [success_check, failure_check,
                               failure_check\<lparr>checkSuiteId := None\<rparr>,
                               failure_check\<lparr>checkSuiteId := Some 12\<rparr>, success_check],
                checkRunSummary = '''', loadingActionLogs = False, loadingActionWorkflows = False\<rparr>,
       statusSubscription = Some 0, calls = [], disposables = 1, suspended = [],
       invocations = 1\<rparr>"]
  by (simp add: suite_ids_def somes_def first_seen_def success_check_def failure_check_def)

subsection \<open>Opening a check on GitHub\<close>

text \<open>
  \<open>viewCheckRunsOnGitHub\<close> always calls \<open>openInBrowser\<close>, once: with the check's
  \<open>htmlUrl\<close> when it has one, and otherwise with the template string, which is never
  null.
\<close>

lemma viewCheckRunsOnGitHub_calls:
  "calls (viewCheckRunsOnGitHub checkRun c) =
     calls c @
       [OpenInBrowser
          (case htmlUrl checkRun of
             Some u \<Rightarrow> u
           | None \<Rightarrow>
               template_of_nullable (htmlURL (repository (props c))) @ ''/pull/'' @
               show_nat (prNumber (props c)))]"
  by (simp add: viewCheckRunsOnGitHub_def split: option.splits)

text \<open>
  C3 (the code at a failing input). The check has no \<open>htmlUrl\<close> and the repository
  has no \<open>htmlURL\<close>: the browser is opened all the same, with the address
  \<open>null/pull/7\<close>. The test \<open>url === null\<close> of the source cannot succeed,
  since the right operand of \<open>??\<close> is a template string.
\<close>

theorem viewCheckRunsOnGitHub_without_any_url:
  "htmlUrl failure_check = None \<and>
   htmlURL (repository (props (after_events nothing_cached example_props [Mount]))) = None \<and>
   calls (viewCheckRunsOnGitHub failure_check (after_events nothing_cached example_props [Mount])) =
     calls (after_events nothing_cached example_props [Mount]) @ [OpenInBrowser ''null/pull/7'']"
  by (simp add: after_events_def popover_eval)

end
